theory Spec2Isabelle
  imports Main "HOL-Library.Word" "HOL-Library.Sublist"
begin

section \<open>Constants of main.c\<close>

text \<open>
  The preprocessor constants of main.c (lines 38--51).  \<open>protocolState\<close> and
  \<open>apiCall\<close> are \<^verbatim>\<open>unsigned char\<close> globals, so the state and call codes are
  8-bit words: a value outside the four named ones is representable, as in C.
\<close>

definition HTTP_PORT :: nat where "HTTP_PORT = 8080"

definition EMPTY :: "8 word" where "EMPTY = 0"
definition REQUEST :: "8 word" where "REQUEST = 1"
definition HEADER :: "8 word" where "HEADER = 2"
definition END :: "8 word" where "END = 3"

definition NONE :: "8 word" where "NONE = 0"
definition GET :: "8 word" where "GET = 1"
definition PUT :: "8 word" where "PUT = 2"
definition DELETE :: "8 word" where "DELETE = 3"

definition CRLF :: string where "CRLF = [CHR 0x0D, CHR 0x0A]"

section \<open>Data model\<close>

text \<open>
  The vital product data and the threshold configuration are globals declared in the
  headers vpd.h and config.h; main.c reads the fields below.
\<close>

record vpd_t =
  model :: string
  manufacturer :: string
  serial_number :: string
  manufacture_date :: "32 word"
  mac_address :: "8 word list"
  country_of_origin :: string

record config_t =
  hi_alarm :: int
  hi_warn :: int
  lo_alarm :: int
  lo_warn :: int

datatype conn_status = Closed | Listening | Established | Other

text \<open>
  One call of a socket write primitive: \<open>socket_writestr\<close>, \<open>socket_writechar\<close>,
  \<open>socket_writequotedstring\<close>, \<open>socket_writedate\<close>, \<open>socket_write_macaddress\<close>
  and \<open>socket_writedec32\<close>, in the order of the constructors.  The bytes that the
  last four produce are decided by the socket library, so the model records the call with
  its argument and leaves the rendering to the parameters of \<open>wire\<close> below.
\<close>

datatype sock_write =
    Str string
  | Chr char
  | Quoted string
  | Date "32 word"
  | Mac "8 word list"
  | Dec32 int

text \<open>Calls to the other collaborators, in the order in which they are issued.\<close>

datatype event =
    WdtReset
  | LedUpdate
  | UartWriteStr string
  | UartWriteDec32 int
  | TempfsmUpdate int int int int int
  | DelaySet nat nat
  | TempStart
  | SocketOpen nat
  | SocketListen
  | SocketDisconnect
  | LogUpdate
  | ConfigUpdate

text \<open>
  The globals of main.c (\<open>current_temperature\<close>, \<open>protocolState\<close>, \<open>apiCall\<close>)
  together with the state of the collaborators that main.c observes: the lines held by
  the socket's receive buffer, the writes issued to the socket, the connection status, the
  expiry flags of the delay timers, the value the sensor will return, the log store, and
  the trace of all other collaborator calls.
\<close>

record sys =
  current_temperature :: int
  protocolState :: "8 word"
  apiCall :: "8 word"
  rx :: "string list"
  tx :: "sock_write list"
  conn :: conn_status
  timers :: "nat \<Rightarrow> bool"
  sensor :: int
  logstore :: "(32 word \<times> 8 word) list"
  vpd :: vpd_t
  config :: config_t
  trace :: "event list"

section \<open>The line socket adapter\<close>

text \<open>
  Modelled from the spec: socket.h and its implementation (\<open>socket_received_line\<close>,
  \<open>socket_recv_compare\<close>, \<open>socket_flush_line\<close>, \<open>socket_is_blank_line\<close>,
  \<open>socket_recv_available\<close>) are not part of the sources.  The spec lists them as
  \<open>hasCompleteLine() -> bool\<close>, \<open>matchesPrefix(text) -> bool\<close> (consumes the line
  if matched), \<open>discardLine()\<close>, \<open>isBlankLine() -> bool\<close> and
  \<open>bytesAvailable() -> int\<close>, over a line-buffered receive buffer.  The receive buffer
  is the list of complete lines, oldest first, each without its terminator.  On an empty
  buffer there is no line to match, to discard or to be blank.  The primitives do not
  wait: during one call of the parser the buffer changes only through the parser's own
  calls, and input that arrives later is seen by later calls.  All calls of main.c pass
  \<open>SERVER_SOCKET\<close>, so the socket number is not a parameter.
\<close>

definition socket_received_line :: "sys \<Rightarrow> bool" where
  "socket_received_line s = (rx s \<noteq> [])"

definition socket_recv_compare :: "string \<Rightarrow> sys \<Rightarrow> bool \<times> sys" where
  "socket_recv_compare str s =
     (case rx s of
        [] \<Rightarrow> (False, s)
      | l # ls \<Rightarrow> if prefix str l then (True, s\<lparr>rx := ls\<rparr>) else (False, s))"

definition socket_flush_line :: "sys \<Rightarrow> sys" where
  "socket_flush_line s = s\<lparr>rx := drop 1 (rx s)\<rparr>"

definition socket_is_blank_line :: "sys \<Rightarrow> bool" where
  "socket_is_blank_line s = (case rx s of [] \<Rightarrow> False | l # ls \<Rightarrow> l = [])"

text \<open>Every buffered line counts its characters and the two bytes of its terminator.\<close>

definition socket_recv_available :: "sys \<Rightarrow> int" where
  "socket_recv_available s = (\<Sum>l\<leftarrow>rx s. int (length l) + 2)"

text \<open>
  Modelled from the spec: the write primitives (\<open>writeText(s)\<close>, \<open>writeRaw(byte)\<close>
  and the formatted writers of socket.h) append to the outbound connection buffer.
\<close>

definition socket_write :: "sock_write \<Rightarrow> sys \<Rightarrow> sys" where
  "socket_write w s = s\<lparr>tx := tx s @ [w]\<rparr>"

text \<open>
  Modelled from the spec: uart.h is not part of the sources.  The UART is the channel of
  the diagnostics; a string written to it is recorded in the trace.
\<close>

definition uart_writestr :: "string \<Rightarrow> sys \<Rightarrow> sys" where
  "uart_writestr str s = s\<lparr>trace := trace s @ [UartWriteStr str]\<rparr>"

section \<open>The request parser: parseRecvBuffer (main.c 345--405)\<close>

text \<open>
  The loop of the \<open>REQUEST\<close> case (lines 363--376).  \<open>found\<close> is 0 on entry, so the
  body runs before the first test; one round compares the buffered line with the three
  prefixes in order, then flushes a line whether or not a prefix matched.  The loop has
  no exit other than \<open>found\<close>, so a round that finds nothing is followed by another one:
  a call that never leaves the loop has the value \<open>None\<close>.
\<close>

definition request_round :: "sys \<Rightarrow> bool \<times> sys" where
  "request_round s =
     (let (found, s1) =
        (case socket_recv_compare ''GET '' s of
           (m1, a) \<Rightarrow>
             if m1 then (True, a\<lparr>apiCall := GET\<rparr>)
             else (case socket_recv_compare ''PUT '' a of
                (m2, b) \<Rightarrow>
                  if m2 then (True, b\<lparr>apiCall := PUT\<rparr>)
                  else (case socket_recv_compare ''DELETE '' b of
                     (m3, c) \<Rightarrow>
                       if m3 then (True, c\<lparr>apiCall := DELETE\<rparr>)
                       else (False, c))))
      in (found, socket_flush_line s1))"

partial_function (option) request_loop :: "sys \<Rightarrow> sys option" where
  "request_loop s =
     (case request_round s of
        (found, s') \<Rightarrow> if found then Some s' else request_loop s')"

text \<open>
  The loop \<^verbatim>\<open>while (!socket_is_blank_line(..)) socket_flush_line(..);\<close> that opens
  both the \<open>HEADER\<close> case (lines 381--383) and the \<open>END\<close> case (lines 393--395).
\<close>

partial_function (option) flush_to_blank :: "sys \<Rightarrow> sys option" where
  "flush_to_blank s =
     (if \<not> socket_is_blank_line s then flush_to_blank (socket_flush_line s) else Some s)"

definition parseRecvBuffer :: "sys \<Rightarrow> sys option" where
  "parseRecvBuffer s =
     (if protocolState s = EMPTY then
        (if socket_received_line s
         then Some (s\<lparr>apiCall := NONE, protocolState := REQUEST\<rparr>)
         else Some s)
      else if protocolState s = REQUEST then
        (case request_loop s of
           None \<Rightarrow> None
         | Some s1 \<Rightarrow> Some (s1\<lparr>protocolState := HEADER\<rparr>))
      else if protocolState s = HEADER then
        (case flush_to_blank s of
           None \<Rightarrow> None
         | Some s1 \<Rightarrow>
             (let s2 = socket_flush_line s1
              in if socket_recv_available s2 > 0
                 then Some (s2\<lparr>protocolState := END\<rparr>)
                 else Some (s2\<lparr>protocolState := EMPTY\<rparr>)))
      else if protocolState s = END then
        (case flush_to_blank s of
           None \<Rightarrow> None
         | Some s1 \<Rightarrow> Some ((socket_flush_line s1)\<lparr>protocolState := EMPTY\<rparr>))
      else Some (uart_writestr (''ERR: Default case entered'' @ CRLF) s))"

text \<open>
  The pump of the scheduler (lines 188--190):
  \<^verbatim>\<open>while (socket_received_line(SERVER_SOCKET)) parseRecvBuffer();\<close>
\<close>

partial_function (option) pump :: "sys \<Rightarrow> sys option" where
  "pump s =
     (if socket_received_line s
      then (case parseRecvBuffer s of None \<Rightarrow> None | Some s' \<Rightarrow> pump s')
      else Some s)"

declare request_loop.simps [code] flush_to_blank.simps [code] pump.simps [code]

section \<open>The API dispatcher (main.c 192--206, 240--328)\<close>

text \<open>
  Modelled from the spec: log.h is not part of the sources.  The spec gives the log store
  as an ordered sequence of (timestamp, event-code) records with \<open>entryCount() -> int\<close>
  and \<open>entryAt(i)\<close>; \<open>getCall\<close> receives the record in an \<^verbatim>\<open>unsigned long\<close> and
  an \<^verbatim>\<open>unsigned char\<close>.  \<open>log_get_record\<close> is only called below the entry count.
\<close>

definition log_get_num_entries :: "sys \<Rightarrow> nat" where
  "log_get_num_entries s = length (logstore s)"

definition log_get_record :: "sys \<Rightarrow> nat \<Rightarrow> 32 word \<times> 8 word" where
  "log_get_record s i = logstore s ! i"

text \<open>A run of consecutive socket writes, first to last.\<close>

definition writes :: "sock_write list \<Rightarrow> sys \<Rightarrow> sys" where
  "writes ws s = fold socket_write ws s"

text \<open>
  The writes of \<open>getCall\<close> before its loop (lines 243--275), one element per call, with
  the macros \<open>_writeColon\<close>, \<open>_writeComma\<close> and \<open>_writeCloseBracket\<close> expanded.
\<close>

definition getCall_preamble :: "sys \<Rightarrow> sock_write list" where
  "getCall_preamble s =
     [Str ''HTTP/1.1 200 OK'',
      Str ''Content-Type: application/vnd.api+json'',
      Str (''Connection: close'' @ CRLF),
      Str CRLF,
      Chr CHR ''{'', Quoted ''vpd'',
      Str '':{'', Quoted ''model'',
      Chr CHR '':'', Quoted (model (vpd s)), Chr CHR '','',
      Quoted ''manufacturer'', Chr CHR '':'',
      Quoted (manufacturer (vpd s)), Chr CHR '','',
      Quoted ''serial_number'', Chr CHR '':'',
      Quoted (serial_number (vpd s)), Chr CHR '','',
      Quoted ''manufacture_date'', Chr CHR '':'',
      Date (manufacture_date (vpd s)), Chr CHR '','',
      Quoted ''mac_address'', Chr CHR '':'',
      Mac (mac_address (vpd s)), Chr CHR '','',
      Quoted ''country_code'', Chr CHR '':'',
      Quoted (country_of_origin (vpd s)),
      Chr CHR ''}'',
      Chr CHR '','', Quoted ''tcrit_hi'', Chr CHR '':'',
      Dec32 (hi_alarm (config s)), Chr CHR '','',
      Quoted ''twarn_hi'', Chr CHR '':'',
      Dec32 (hi_warn (config s)),
      Chr CHR '','', Quoted ''tcrit_lo'', Chr CHR '':'',
      Dec32 (lo_alarm (config s)), Chr CHR '','',
      Quoted ''twarn_lo'', Chr CHR '':'',
      Dec32 (lo_warn (config s)), Chr CHR '','',
      Quoted ''temperature'', Chr CHR '':'',
      Dec32 (current_temperature s), Chr CHR '','',
      Quoted ''state'', Chr CHR '':'',
      Quoted ''NORMAL'', Chr CHR '','',
      Quoted ''log'', Str '':['']"

text \<open>
  The loop of \<open>getCall\<close> (lines 277--288).  The index is a C \<^verbatim>\<open>int\<close> that runs
  from 0 up to the entry count, which is read again at every test; the comma test
  \<^verbatim>\<open>i < log_get_num_entries() - 1\<close> is evaluated over the integers.
\<close>

function log_loop :: "nat \<Rightarrow> sys \<Rightarrow> sys" where
  "log_loop i s =
     (if i < log_get_num_entries s then
        (let (time, eventnum) = log_get_record s i;
             s1 = writes [Chr CHR ''{'', Quoted ''timestamp'', Chr CHR '':'',
                          Date time, Chr CHR '','',
                          Quoted ''event'', Chr CHR '':'',
                          Dec32 (uint eventnum), Chr CHR ''}''] s;
             s2 = (if int i < int (log_get_num_entries s1) - 1
                   then socket_write (Chr CHR '','') s1 else s1)
         in log_loop (i + 1) s2)
      else s)"
  by pat_completeness auto
termination
proof (relation "measure (\<lambda>(i, s). length (logstore s) - i)")
  show "wf (measure (\<lambda>(i, s). length (logstore s) - i))" by simp
next
  fix i :: nat and s :: sys and x :: "32 word \<times> 8 word" and time :: "32 word"
    and eventnum :: "8 word" and s1 s2 :: sys
  assume lt: "i < log_get_num_entries s"
    and s1: "s1 = writes [Chr CHR ''{'', Quoted ''timestamp'', Chr CHR '':'', Date time,
                 Chr CHR '','', Quoted ''event'', Chr CHR '':'', Dec32 (uint eventnum),
                 Chr CHR ''}''] s"
    and s2: "s2 = (if int i < int (log_get_num_entries s1) - 1
                   then socket_write (Chr CHR '','') s1 else s1)"
  have "logstore s2 = logstore s"
    by (simp add: s1 s2 writes_def socket_write_def)
  with lt show "((i + 1, s2), (i, s)) \<in> measure (\<lambda>(i, s). length (logstore s) - i)"
    by (simp add: log_get_num_entries_def)
qed

declare log_loop.simps [simp del]

definition getCall :: "sys \<Rightarrow> sys" where
  "getCall s =
     (let s1 = writes (getCall_preamble s) s;
          s2 = log_loop 0 s1
      in writes [Chr CHR '']'', Chr CHR ''}'', Str CRLF] s2)"

definition putCall :: "sys \<Rightarrow> sys" where
  "putCall s = uart_writestr (''PUT command ...'' @ CRLF) s"

definition deleteCall :: "sys \<Rightarrow> sys" where
  "deleteCall s = uart_writestr (''DELETE command ...'' @ CRLF) s"

text \<open>The \<^verbatim>\<open>switch (apiCall)\<close> of the scheduler (lines 192--206).\<close>

definition dispatch :: "sys \<Rightarrow> sys" where
  "dispatch s =
     (if apiCall s = NONE then s
      else if apiCall s = GET then getCall s
      else if apiCall s = PUT then putCall s
      else if apiCall s = DELETE then deleteCall s
      else s)"

text \<open>
  The bytes on the wire.  What the formatted writers of the socket library emit for a
  quoted string, a date, a MAC address and a decimal number is a parameter of the
  rendering; \<open>socket_writestr\<close> and \<open>socket_writechar\<close> emit their argument as it is
  (main.c writes \<^verbatim>\<open>":{"\<close> and \<^verbatim>\<open>"\r\n"\<close> through \<open>socket_writestr\<close>).
\<close>

record writers =
  writequotedstring :: "string \<Rightarrow> string"
  writedate :: "32 word \<Rightarrow> string"
  write_macaddress :: "8 word list \<Rightarrow> string"
  writedec32 :: "int \<Rightarrow> string"

fun wire1 :: "writers \<Rightarrow> sock_write \<Rightarrow> string" where
  "wire1 f (Str str) = str"
| "wire1 f (Chr c) = [c]"
| "wire1 f (Quoted str) = writequotedstring f str"
| "wire1 f (Date d) = writedate f d"
| "wire1 f (Mac m) = write_macaddress f m"
| "wire1 f (Dec32 n) = writedec32 f n"

definition wire :: "writers \<Rightarrow> sock_write list \<Rightarrow> string" where
  "wire f ws = concat (map (wire1 f) ws)"

section \<open>The cyclic scheduler (main.c 142--218)\<close>

text \<open>
  Modelled from the spec: the watchdog, LED, UART, timer, sensor, hysteresis, socket
  lifecycle, log and configuration collaborators are declared in headers that are not part
  of the sources.  Each call is recorded in the trace; the calls that the scheduler reads
  back (\<open>delay_isdone\<close>, \<open>temp_get\<close>, the socket status queries) read the
  corresponding field of the state.
\<close>

definition wdt_reset :: "sys \<Rightarrow> sys" where
  "wdt_reset s = s\<lparr>trace := trace s @ [WdtReset]\<rparr>"

definition led_update :: "sys \<Rightarrow> sys" where
  "led_update s = s\<lparr>trace := trace s @ [LedUpdate]\<rparr>"

definition delay_isdone :: "nat \<Rightarrow> sys \<Rightarrow> bool" where
  "delay_isdone n s = timers s n"

definition delay_set :: "nat \<Rightarrow> nat \<Rightarrow> sys \<Rightarrow> sys" where
  "delay_set n ms s = s\<lparr>timers := (timers s)(n := False), trace := trace s @ [DelaySet n ms]\<rparr>"

definition temp_get :: "sys \<Rightarrow> int" where
  "temp_get s = sensor s"

definition temp_start :: "sys \<Rightarrow> sys" where
  "temp_start s = s\<lparr>trace := trace s @ [TempStart]\<rparr>"

definition uart_writedec32 :: "int \<Rightarrow> sys \<Rightarrow> sys" where
  "uart_writedec32 n s = s\<lparr>trace := trace s @ [UartWriteDec32 n]\<rparr>"

definition tempfsm_update :: "int \<Rightarrow> int \<Rightarrow> int \<Rightarrow> int \<Rightarrow> int \<Rightarrow> sys \<Rightarrow> sys" where
  "tempfsm_update t ha hw la lw s = s\<lparr>trace := trace s @ [TempfsmUpdate t ha hw la lw]\<rparr>"

definition socket_is_established :: "sys \<Rightarrow> bool" where
  "socket_is_established s = (conn s = Established)"

definition socket_is_listening :: "sys \<Rightarrow> bool" where
  "socket_is_listening s = (conn s = Listening)"

definition socket_is_closed :: "sys \<Rightarrow> bool" where
  "socket_is_closed s = (conn s = Closed)"

definition socket_open :: "nat \<Rightarrow> sys \<Rightarrow> sys" where
  "socket_open port s = s\<lparr>conn := Other, trace := trace s @ [SocketOpen port]\<rparr>"

definition socket_listen :: "sys \<Rightarrow> sys" where
  "socket_listen s = s\<lparr>conn := Listening, trace := trace s @ [SocketListen]\<rparr>"

definition socket_disconnect :: "sys \<Rightarrow> sys" where
  "socket_disconnect s = s\<lparr>conn := Closed, trace := trace s @ [SocketDisconnect]\<rparr>"

definition log_update :: "sys \<Rightarrow> sys" where
  "log_update s = s\<lparr>trace := trace s @ [LogUpdate]\<rparr>"

definition config_update :: "sys \<Rightarrow> sys" where
  "config_update s = s\<lparr>trace := trace s @ [ConfigUpdate]\<rparr>"

text \<open>The body of \<^verbatim>\<open>if (delay_isdone(1))\<close> (lines 155--178).\<close>

definition sample :: "sys \<Rightarrow> sys" where
  "sample s =
     (let s1 = s\<lparr>current_temperature := temp_get s\<rparr>;
          s2 = uart_writedec32 (current_temperature s1) s1;
          s3 = (if socket_is_established s2 then
                  uart_writestr ([CHR 0x09] @ ''socket established'' @ CRLF) s2
                else if socket_is_listening s2 then
                  uart_writestr ([CHR 0x09] @ ''socket listening'' @ CRLF) s2
                else if socket_is_closed s2 then
                  uart_writestr ([CHR 0x09] @ ''socket closed'' @ CRLF) s2
                else
                  uart_writestr ([CHR 0x09] @ ''socket status unknown'' @ CRLF) s2);
          s4 = tempfsm_update (current_temperature s3)
                 (hi_alarm (config s3)) (hi_warn (config s3))
                 (lo_alarm (config s3)) (lo_warn (config s3)) s3;
          s5 = delay_set 1 1000 s4
      in temp_start s5)"

text \<open>
  One iteration of \<^verbatim>\<open>while (1)\<close>, in two parts.  \<open>sched_head\<close> is lines 143--184: the
  watchdog reset, the LED update, the timed sampling and the reopening of a closed socket.
\<close>

definition sched_head :: "sys \<Rightarrow> sys" where
  "sched_head s =
     (let s1 = wdt_reset s;
          s2 = led_update s1;
          s3 = (if delay_isdone 1 s2 then sample s2 else s2)
      in if socket_is_closed s3 then socket_listen (socket_open HTTP_PORT s3) else s3)"

text \<open>
  \<open>sched_tail\<close> is lines 185--217: with a line buffered, the pump, the dispatch and the
  disconnect; otherwise the write-backs of the log and of the configuration.  An iteration
  whose pump never returns has the value \<open>None\<close>.
\<close>

definition sched_tail :: "sys \<Rightarrow> sys option" where
  "sched_tail s =
     (if socket_received_line s then
        (case pump s of
           None \<Rightarrow> None
         | Some s1 \<Rightarrow> Some (socket_disconnect (dispatch s1)))
      else Some (config_update (log_update s)))"

definition main_loop_body :: "sys \<Rightarrow> sys option" where
  "main_loop_body s = sched_tail (sched_head s)"

section \<open>Reference notions used by the statements\<close>

text \<open>The method named by a request line: the code of the prefix it begins with.\<close>

definition request_method :: "string \<Rightarrow> 8 word option" where
  "request_method l =
     (if prefix ''GET '' l then Some GET
      else if prefix ''PUT '' l then Some PUT
      else if prefix ''DELETE '' l then Some DELETE
      else None)"

text \<open>
  The lines of a request: the request line, the header lines, a blank line and, when the
  request has a body, the body lines and a second blank line.
\<close>

definition request_lines :: "string \<Rightarrow> string list \<Rightarrow> string list option \<Rightarrow> string list" where
  "request_lines l hs body =
     l # hs @ [[]] @ (case body of None \<Rightarrow> [] | Some bs \<Rightarrow> bs @ [[]])"

text \<open>
  Lines that arrive in several batches: each batch is appended to the receive buffer and
  the parser is invoked for as long as a line is buffered.
\<close>

fun feed :: "string list list \<Rightarrow> sys \<Rightarrow> sys option" where
  "feed [] s = Some s"
| "feed (batch # batches) s =
     (case pump (s\<lparr>rx := rx s @ batch\<rparr>) of
        None \<Rightarrow> None
      | Some s' \<Rightarrow> feed batches s')"

text \<open>Entries separated by single commas, with none after the last.\<close>

fun comma_join :: "sock_write list list \<Rightarrow> sock_write list" where
  "comma_join [] = []"
| "comma_join [e] = e"
| "comma_join (e # es) = e @ [Chr CHR '',''] @ comma_join es"

text \<open>One log record as it appears in the array of the response.\<close>

definition log_entry :: "32 word \<times> 8 word \<Rightarrow> sock_write list" where
  "log_entry r =
     [Chr CHR ''{'', Quoted ''timestamp'', Chr CHR '':'', Date (fst r), Chr CHR '','',
      Quoted ''event'', Chr CHR '':'', Dec32 (uint (snd r)), Chr CHR ''}'']"

text \<open>
  A state for concrete runs: the globals as main.c initialises them (lines 54--60), an
  established connection with nothing buffered, and sample values for the device data.
\<close>

definition example_sys :: sys where
  "example_sys =
     \<lparr>current_temperature = 75, protocolState = EMPTY, apiCall = NONE,
      rx = [], tx = [], conn = Established, timers = (\<lambda>n. False), sensor = 75,
      logstore = [(1575590400, 1), (1575590460, 7)],
      vpd = \<lparr>model = ''SER486'', manufacturer = ''ASU'', serial_number = ''0001'',
             manufacture_date = 1575590400, mac_address = [0x42, 0x52, 0x4F, 0, 0, 1],
             country_of_origin = ''USA''\<rparr>,
      config = \<lparr>hi_alarm = 100, hi_warn = 90, lo_alarm = 40, lo_warn = 50\<rparr>,
      trace = []\<rparr>"

section \<open>Facts about the parser's loops\<close>

lemmas code_defs = EMPTY_def REQUEST_def HEADER_def END_def NONE_def GET_def PUT_def DELETE_def

lemma request_round_Nil: "rx s = [] \<Longrightarrow> request_round s = (False, s)"
  by (simp add: request_round_def socket_recv_compare_def socket_flush_line_def)

lemma request_round_skip:
  "rx s = l # ls \<Longrightarrow> request_method l = None \<Longrightarrow> request_round s = (False, s\<lparr>rx := ls\<rparr>)"
  by (simp add: request_round_def socket_recv_compare_def socket_flush_line_def request_method_def split: if_splits)

lemma request_round_match:
  "rx s = l # ls \<Longrightarrow> request_method l = Some m \<Longrightarrow>
   request_round s = (True, s\<lparr>apiCall := m, rx := drop 1 ls\<rparr>)"
  by (auto simp add: request_round_def socket_recv_compare_def socket_flush_line_def request_method_def split: if_splits)

lemma request_loop_Some_rx:
  assumes "request_loop s = Some y"
  shows "rx s \<noteq> []"
  using assms
proof (rule request_loop.raw_induct [where P = "\<lambda>s y. rx s \<noteq> []", rotated])
  fix f :: "sys \<Rightarrow> sys option" and s y
  assume IH: "\<And>x y. f x = Some y \<Longrightarrow> rx x \<noteq> []"
    and st: "(case request_round s of (found, s') \<Rightarrow> if found then Some s' else f s') = Some y"
  show "rx s \<noteq> []"
  proof
    assume e: "rx s = []"
    from st have "f s = Some y" by (simp add: request_round_Nil [OF e])
    from IH [OF this] e show False by simp
  qed
qed

lemma request_loop_Nil: "rx s = [] \<Longrightarrow> request_loop s = None"
  using request_loop_Some_rx [of s] by (cases "request_loop s") auto

lemma request_loop_skip:
  "rx s = l # ls \<Longrightarrow> request_method l = None \<Longrightarrow> request_loop s = request_loop (s\<lparr>rx := ls\<rparr>)"
  by (subst request_loop.simps) (simp add: request_round_skip)

lemma request_loop_match:
  "rx s = l # ls \<Longrightarrow> request_method l = Some m \<Longrightarrow>
   request_loop s = Some (s\<lparr>apiCall := m, rx := drop 1 ls\<rparr>)"
  by (subst request_loop.simps) (simp add: request_round_match)

lemma request_loop_scan:
  "rx s = pre @ l # ls \<Longrightarrow> \<forall>p\<in>set pre. request_method p = None \<Longrightarrow> request_method l = Some m \<Longrightarrow>
   request_loop s = Some (s\<lparr>apiCall := m, rx := drop 1 ls\<rparr>)"
proof (induction pre arbitrary: s)
  case Nil
  then show ?case by (simp add: request_loop_match)
next
  case (Cons p pre)
  from Cons.prems have "request_loop s = request_loop (s\<lparr>rx := pre @ l # ls\<rparr>)"
    by (simp add: request_loop_skip)
  also have "\<dots> = Some (s\<lparr>rx := pre @ l # ls\<rparr>\<lparr>apiCall := m, rx := drop 1 ls\<rparr>)"
    using Cons.prems by (intro Cons.IH) simp_all
  finally show ?case by simp
qed

lemma request_loop_no_match:
  "\<forall>p\<in>set (rx s). request_method p = None \<Longrightarrow> request_loop s = None"
proof (induction "rx s" arbitrary: s)
  case Nil
  then show ?case by (simp add: request_loop_Nil)
next
  case (Cons p ps)
  from Cons(2) [symmetric] Cons(3) have "request_loop s = request_loop (s\<lparr>rx := ps\<rparr>)"
    by (simp add: request_loop_skip)
  also have "\<dots> = None" using Cons(2) [symmetric] Cons(3) by (intro Cons(1)) simp_all
  finally show ?case .
qed

lemma flush_to_blank_lines:
  "rx s = pre @ [] # ls \<Longrightarrow> \<forall>p\<in>set pre. p \<noteq> [] \<Longrightarrow>
   flush_to_blank s = Some (s\<lparr>rx := [] # ls\<rparr>)"
proof (induction pre arbitrary: s)
  case Nil
  then show ?case by (subst flush_to_blank.simps) (simp add: socket_is_blank_line_def)
next
  case (Cons p pre)
  from Cons.prems have "flush_to_blank s = flush_to_blank (s\<lparr>rx := pre @ [] # ls\<rparr>)"
    by (subst flush_to_blank.simps) (simp add: socket_is_blank_line_def socket_flush_line_def)
  also have "\<dots> = Some (s\<lparr>rx := pre @ [] # ls\<rparr>\<lparr>rx := [] # ls\<rparr>)"
    using Cons.prems by (intro Cons.IH) simp_all
  finally show ?case by simp
qed

lemma parse_EMPTY:
  "protocolState s = EMPTY \<Longrightarrow> rx s \<noteq> [] \<Longrightarrow>
   parseRecvBuffer s = Some (s\<lparr>apiCall := NONE, protocolState := REQUEST\<rparr>)"
  by (simp add: parseRecvBuffer_def socket_received_line_def)

lemma parse_EMPTY_idle:
  "protocolState s = EMPTY \<Longrightarrow> rx s = [] \<Longrightarrow> parseRecvBuffer s = Some s"
  by (simp add: parseRecvBuffer_def socket_received_line_def)

lemma parse_REQUEST:
  "protocolState s = REQUEST \<Longrightarrow> rx s = pre @ l # ls \<Longrightarrow>
   \<forall>p\<in>set pre. request_method p = None \<Longrightarrow> request_method l = Some m \<Longrightarrow>
   parseRecvBuffer s = Some (s\<lparr>apiCall := m, rx := drop 1 ls, protocolState := HEADER\<rparr>)"
  by (simp add: parseRecvBuffer_def request_loop_scan code_defs)

lemma parse_REQUEST_no_match:
  "protocolState s = REQUEST \<Longrightarrow> \<forall>p\<in>set (rx s). request_method p = None \<Longrightarrow>
   parseRecvBuffer s = None"
  by (simp add: parseRecvBuffer_def request_loop_no_match code_defs)

lemma recv_available_pos: "(0 < socket_recv_available s) = (rx s \<noteq> [])"
proof -
  have "0 \<le> (\<Sum>l\<leftarrow>ls. int (length l) + 2)" for ls :: "string list"
    by (induction ls) simp_all
  then show ?thesis
    unfolding socket_recv_available_def by (cases "rx s") (simp_all add: add_pos_nonneg add.commute)
qed

lemma parse_HEADER:
  "protocolState s = HEADER \<Longrightarrow> rx s = pre @ [] # ls \<Longrightarrow> \<forall>p\<in>set pre. p \<noteq> [] \<Longrightarrow>
   parseRecvBuffer s = Some (s\<lparr>rx := ls, protocolState := (if ls = [] then EMPTY else END)\<rparr>)"
  by (simp add: parseRecvBuffer_def flush_to_blank_lines code_defs socket_flush_line_def
      recv_available_pos)

lemma parse_END:
  "protocolState s = END \<Longrightarrow> rx s = pre @ [] # ls \<Longrightarrow> \<forall>p\<in>set pre. p \<noteq> [] \<Longrightarrow>
   parseRecvBuffer s = Some (s\<lparr>rx := ls, protocolState := EMPTY\<rparr>)"
  by (simp add: parseRecvBuffer_def flush_to_blank_lines code_defs socket_flush_line_def)

lemma parse_default:
  "protocolState s \<notin> {EMPTY, REQUEST, HEADER, END} \<Longrightarrow>
   parseRecvBuffer s = Some (uart_writestr (''ERR: Default case entered'' @ CRLF) s)"
  by (simp add: parseRecvBuffer_def)

lemma pump_done: "rx s = [] \<Longrightarrow> pump s = Some s"
  by (subst pump.simps) (simp add: socket_received_line_def)

lemma pump_step: "rx s \<noteq> [] \<Longrightarrow> parseRecvBuffer s = Some s' \<Longrightarrow> pump s = pump s'"
  by (subst pump.simps) (simp add: socket_received_line_def)

lemma pump_stuck: "rx s \<noteq> [] \<Longrightarrow> parseRecvBuffer s = None \<Longrightarrow> pump s = None"
  by (subst pump.simps) (simp add: socket_received_line_def)

lemma pump_request_lines:
  assumes m: "request_method l = Some m"
    and hs: "\<forall>h\<in>set hs. h \<noteq> []"
    and bs: "\<forall>bs. body = Some bs \<longrightarrow> (\<forall>b\<in>set bs. b \<noteq> [])"
    and some: "hs \<noteq> [] \<or> body \<noteq> None"
    and st: "protocolState s = EMPTY"
  shows "pump (s\<lparr>rx := request_lines l hs body\<rparr>) =
           Some (s\<lparr>apiCall := m, protocolState := EMPTY, rx := []\<rparr>)"
proof -
  let ?tail = "case body of None \<Rightarrow> [] | Some bs \<Rightarrow> bs @ [[]]"
  let ?s0 = "s\<lparr>rx := request_lines l hs body\<rparr>"
  let ?s1 = "?s0\<lparr>apiCall := NONE, protocolState := REQUEST\<rparr>"
  let ?s2 = "?s1\<lparr>apiCall := m, rx := drop 1 (hs @ [[]] @ ?tail), protocolState := HEADER\<rparr>"
  have p0: "parseRecvBuffer ?s0 = Some ?s1"
    using st by (intro parse_EMPTY) (simp_all add: request_lines_def)
  have p1: "parseRecvBuffer ?s1 = Some ?s2"
    using m by (intro parse_REQUEST [where pre = "[]" and l = l])
      (simp_all add: request_lines_def code_defs)
  have "pump ?s0 = pump ?s1"
    using p0 by (intro pump_step) (simp_all add: request_lines_def)
  also have "\<dots> = pump ?s2"
    using p1 by (intro pump_step) (simp_all add: request_lines_def)
  also have "\<dots> = Some (s\<lparr>apiCall := m, protocolState := EMPTY, rx := []\<rparr>)"
  proof (cases hs)
    case (Cons h hs')
    have rx2: "rx ?s2 = hs' @ [] # ?tail" by (simp add: Cons)
    have hs': "\<forall>p\<in>set hs'. p \<noteq> []" using hs Cons by simp
    have p2: "parseRecvBuffer ?s2 =
        Some (?s2\<lparr>rx := ?tail, protocolState := (if ?tail = [] then EMPTY else END)\<rparr>)"
      by (rule parse_HEADER [OF _ rx2 hs']) simp
    show ?thesis
    proof (cases body)
      case None
      have "pump ?s2 = pump (?s2\<lparr>rx := [], protocolState := EMPTY\<rparr>)"
        using p2 None by (intro pump_step) (simp_all add: Cons)
      also have "\<dots> = Some (?s2\<lparr>rx := [], protocolState := EMPTY\<rparr>)"
        by (rule pump_done) simp
      finally show ?thesis by simp
    next
      case (Some bl)
      let ?s3 = "?s2\<lparr>rx := bl @ [[]], protocolState := END\<rparr>"
      have bl: "\<forall>p\<in>set bl. p \<noteq> []" using bs Some by simp
      have p3: "parseRecvBuffer ?s3 = Some (?s3\<lparr>rx := [], protocolState := EMPTY\<rparr>)"
        by (rule parse_END [where pre = bl]) (simp_all add: bl)
      have "pump ?s2 = pump ?s3"
        using p2 Some by (intro pump_step) (simp_all add: Cons)
      also have "\<dots> = pump (?s3\<lparr>rx := [], protocolState := EMPTY\<rparr>)"
        using p3 by (intro pump_step) simp_all
      also have "\<dots> = Some (?s3\<lparr>rx := [], protocolState := EMPTY\<rparr>)"
        by (rule pump_done) simp
      finally show ?thesis by simp
    qed
  next
    case Nil
    with some obtain bl where Some: "body = Some bl" by auto
    have bl: "\<forall>p\<in>set bl. p \<noteq> []" using bs Some by simp
    have rx2: "rx ?s2 = bl @ [] # []" by (simp add: Nil Some)
    have p2: "parseRecvBuffer ?s2 =
        Some (?s2\<lparr>rx := [], protocolState := (if ([] :: string list) = [] then EMPTY else END)\<rparr>)"
      by (rule parse_HEADER [OF _ rx2 bl]) simp
    have "pump ?s2 = pump (?s2\<lparr>rx := [], protocolState := EMPTY\<rparr>)"
      using p2 by (intro pump_step) (simp_all add: Nil Some)
    also have "\<dots> = Some (?s2\<lparr>rx := [], protocolState := EMPTY\<rparr>)"
      by (rule pump_done) simp
    finally show ?thesis by simp
  qed
  finally show ?thesis .
qed

lemma pump_no_method:
  assumes st: "protocolState s = EMPTY" and ne: "rx s \<noteq> []"
    and no: "\<forall>p\<in>set (rx s). request_method p = None"
  shows "pump s = None"
proof -
  let ?s1 = "s\<lparr>apiCall := NONE, protocolState := REQUEST\<rparr>"
  have "pump s = pump ?s1"
    using ne parse_EMPTY [OF st ne] by (rule pump_step)
  also have "\<dots> = None"
    using ne no by (intro pump_stuck parse_REQUEST_no_match) simp_all
  finally show ?thesis .
qed

section \<open>Facts about the response writer\<close>

lemma writes_eq: "writes ws s = s\<lparr>tx := tx s @ ws\<rparr>"
  unfolding writes_def
proof (induction ws arbitrary: s)
  case Nil
  show ?case by simp
next
  case (Cons w ws)
  have "fold socket_write (w # ws) s = fold socket_write ws (socket_write w s)" by simp
  also have "\<dots> = (socket_write w s)\<lparr>tx := tx (socket_write w s) @ ws\<rparr>" by (rule Cons.IH)
  also have "\<dots> = s\<lparr>tx := tx s @ w # ws\<rparr>" by (simp add: socket_write_def)
  finally show ?case .
qed

lemma comma_join_Cons:
  "comma_join (e # es) = e @ (if es = [] then [] else Chr CHR '','' # comma_join es)"
  by (cases es) simp_all

lemma log_loop_eq:
  "i \<le> length (logstore s) \<Longrightarrow>
   log_loop i s = s\<lparr>tx := tx s @ comma_join (map log_entry (drop i (logstore s)))\<rparr>"
proof (induction i s rule: log_loop.induct)
  case (1 i s)
  show ?case
  proof (cases "i < length (logstore s)")
    case False
    with "1.prems" have "i = length (logstore s)" by simp
    then show ?thesis by (subst log_loop.simps) (simp add: log_get_num_entries_def)
  next
    case True
    obtain time eventnum where r: "log_get_record s i = (time, eventnum)"
      by (cases "log_get_record s i")
    define s1 where "s1 = writes [Chr CHR ''{'', Quoted ''timestamp'', Chr CHR '':'',
                          Date time, Chr CHR '','',
                          Quoted ''event'', Chr CHR '':'',
                          Dec32 (uint eventnum), Chr CHR ''}''] s"
    define s2 where "s2 = (if int i < int (log_get_num_entries s1) - 1
                   then socket_write (Chr CHR '','') s1 else s1)"
    have ls: "logstore s2 = logstore s"
      by (simp add: s1_def s2_def writes_eq socket_write_def)
    have IH: "log_loop (i + 1) s2 =
        s2\<lparr>tx := tx s2 @ comma_join (map log_entry (drop (i + 1) (logstore s2)))\<rparr>"
      using True
      by (intro "1.IH" [OF _ r [symmetric] refl s1_def s2_def])
         (simp_all add: log_get_num_entries_def ls)
    have step: "log_loop i s = log_loop (i + 1) s2"
      using True
      by (subst log_loop.simps) (simp add: log_get_num_entries_def r s1_def s2_def)
    have d: "drop i (logstore s) = (time, eventnum) # drop (i + 1) (logstore s)"
      using True r Cons_nth_drop_Suc [of i "logstore s"] by (simp add: log_get_record_def)
    have c: "(int i < int (log_get_num_entries s1) - 1) = (drop (i + 1) (logstore s) \<noteq> [])"
      by (auto simp add: s1_def writes_eq log_get_num_entries_def)
    have s1: "s1 = s\<lparr>tx := tx s @ log_entry (time, eventnum)\<rparr>"
      by (simp add: s1_def writes_eq log_entry_def)
    have s2: "s2 = s\<lparr>tx := tx s @ log_entry (time, eventnum)
                 @ (if drop (i + 1) (logstore s) = [] then [] else [Chr CHR '',''])\<rparr>"
      unfolding s2_def c by (simp add: s1 socket_write_def)
    show ?thesis
      unfolding step IH ls d by (simp add: comma_join_Cons s2)
  qed
qed

lemma log_array_indices:
  "map (\<lambda>i. log_entry (log_get_record s i)) [0 ..< log_get_num_entries s] =
   map log_entry (logstore s)"
  unfolding log_get_num_entries_def log_get_record_def by (rule nth_equalityI) simp_all

lemma getCall_eq:
  "getCall s = s\<lparr>tx := tx s @ getCall_preamble s @ comma_join (map log_entry (logstore s))
                   @ [Chr CHR '']'', Chr CHR ''}'', Str CRLF]\<rparr>"
  by (simp add: getCall_def Let_def writes_eq log_loop_eq)

section \<open>Facts about the scheduler\<close>

lemma request_loop_trace:
  assumes "request_loop s = Some y"
  shows "trace y = trace s"
  using assms
proof (rule request_loop.raw_induct [where P = "\<lambda>s y. trace y = trace s", rotated])
  fix f :: "sys \<Rightarrow> sys option" and s y
  assume IH: "\<And>x y. f x = Some y \<Longrightarrow> trace y = trace x"
    and st: "(case request_round s of (found, s') \<Rightarrow> if found then Some s' else f s') = Some y"
  have tr: "trace (snd (request_round s)) = trace s"
    by (simp add: request_round_def socket_recv_compare_def socket_flush_line_def
        split: list.split prod.split)
  show "trace y = trace s"
  proof (cases "request_round s")
    case (Pair found s')
    with tr have t': "trace s' = trace s" by simp
    show ?thesis
    proof (cases found)
      case True
      with st Pair t' show ?thesis by simp
    next
      case False
      with st Pair have "f s' = Some y" by simp
      from IH [OF this] t' show ?thesis by simp
    qed
  qed
qed

lemma flush_to_blank_trace:
  assumes "flush_to_blank s = Some y"
  shows "trace y = trace s"
  using assms
proof (rule flush_to_blank.raw_induct [where P = "\<lambda>s y. trace y = trace s", rotated])
  fix f :: "sys \<Rightarrow> sys option" and s y
  assume IH: "\<And>x y. f x = Some y \<Longrightarrow> trace y = trace x"
    and st: "(if \<not> socket_is_blank_line s then f (socket_flush_line s) else Some s) = Some y"
  show "trace y = trace s"
  proof (cases "socket_is_blank_line s")
    case True
    with st show ?thesis by simp
  next
    case False
    with st have "f (socket_flush_line s) = Some y" by simp
    from IH [OF this] show ?thesis by (simp add: socket_flush_line_def)
  qed
qed

lemma parse_trace:
  assumes "parseRecvBuffer s = Some y"
  shows "prefix (trace s) (trace y)"
proof -
  consider "protocolState s = EMPTY" | "protocolState s = REQUEST" | "protocolState s = HEADER"
    | "protocolState s = END" | "protocolState s \<notin> {EMPTY, REQUEST, HEADER, END}"
    by auto
  then show ?thesis
  proof cases
    case 1
    with assms show ?thesis by (auto simp add: parseRecvBuffer_def split: if_splits)
  next
    case 2
    with assms obtain s1 where "request_loop s = Some s1" and "y = s1\<lparr>protocolState := HEADER\<rparr>"
      by (auto simp add: parseRecvBuffer_def code_defs split: option.splits)
    then show ?thesis by (simp add: request_loop_trace)
  next
    case 3
    with assms obtain s1 where "flush_to_blank s = Some s1" and "trace y = trace s1"
      by (auto simp add: parseRecvBuffer_def code_defs Let_def socket_flush_line_def
          split: option.splits if_splits)
    then show ?thesis by (simp add: flush_to_blank_trace)
  next
    case 4
    with assms obtain s1 where "flush_to_blank s = Some s1" and "trace y = trace s1"
      by (auto simp add: parseRecvBuffer_def code_defs Let_def socket_flush_line_def
          split: option.splits if_splits)
    then show ?thesis by (simp add: flush_to_blank_trace)
  next
    case 5
    with assms show ?thesis by (auto simp add: parse_default uart_writestr_def)
  qed
qed

lemma pump_trace:
  assumes "pump s = Some y"
  shows "prefix (trace s) (trace y)"
  using assms
proof (rule pump.raw_induct [where P = "\<lambda>s y. prefix (trace s) (trace y)", rotated])
  fix f :: "sys \<Rightarrow> sys option" and s y
  assume IH: "\<And>x y. f x = Some y \<Longrightarrow> prefix (trace x) (trace y)"
    and st: "(if socket_received_line s
              then case parseRecvBuffer s of None \<Rightarrow> None | Some s' \<Rightarrow> f s'
              else Some s) = Some y"
  show "prefix (trace s) (trace y)"
  proof (cases "socket_received_line s")
    case False
    with st show ?thesis by simp
  next
    case True
    with st obtain s' where p: "parseRecvBuffer s = Some s'" and f: "f s' = Some y"
      by (auto split: option.splits)
    from parse_trace [OF p] IH [OF f] show ?thesis by (rule prefix_order.trans)
  qed
qed

lemma dispatch_trace: "prefix (trace s) (trace (dispatch s))"
  by (simp add: dispatch_def getCall_eq putCall_def deleteCall_def uart_writestr_def)

lemma sched_head_trace: "\<exists>es. trace (sched_head s) = trace s @ WdtReset # LedUpdate # es"
  by (simp add: sched_head_def sample_def Let_def wdt_reset_def led_update_def delay_isdone_def
      temp_get_def uart_writedec32_def uart_writestr_def tempfsm_update_def delay_set_def
      temp_start_def socket_is_established_def socket_is_listening_def socket_is_closed_def
      socket_open_def socket_listen_def)

lemma sched_head_parser_fields:
  "rx (sched_head s) = rx s \<and> tx (sched_head s) = tx s \<and>
   protocolState (sched_head s) = protocolState s \<and> apiCall (sched_head s) = apiCall s"
  by (simp add: sched_head_def sample_def Let_def wdt_reset_def led_update_def delay_isdone_def
      temp_get_def uart_writedec32_def uart_writestr_def tempfsm_update_def delay_set_def
      temp_start_def socket_is_established_def socket_is_listening_def socket_is_closed_def
      socket_open_def socket_listen_def)

lemma sched_tail_trace:
  assumes "sched_tail s = Some y"
  shows "prefix (trace s) (trace y)"
proof (cases "socket_received_line s")
  case False
  with assms show ?thesis
    by (auto simp add: sched_tail_def log_update_def config_update_def)
next
  case True
  with assms obtain s1 where p: "pump s = Some s1" and y: "y = socket_disconnect (dispatch s1)"
    by (auto simp add: sched_tail_def split: option.splits)
  have "prefix (trace (dispatch s1)) (trace y)" by (simp add: y socket_disconnect_def)
  with pump_trace [OF p] dispatch_trace [of s1] show ?thesis
    by (meson prefix_order.trans)
qed

lemma request_cycle_ends_with_disconnect:
  assumes "socket_received_line (sched_head s)" and "pump (sched_head s) = Some s1"
  shows "main_loop_body s = Some (socket_disconnect (dispatch s1))"
    and "trace (socket_disconnect (dispatch s1)) = trace (dispatch s1) @ [SocketDisconnect]"
    and "conn (socket_disconnect (dispatch s1)) = Closed"
  using assms by (simp_all add: main_loop_body_def sched_tail_def socket_disconnect_def)

lemma example_sched_head:
  "sched_head (example_sys\<lparr>rx := ls\<rparr>) = example_sys\<lparr>trace := [WdtReset, LedUpdate], rx := ls\<rparr>"
  by (simp add: sched_head_def Let_def wdt_reset_def led_update_def delay_isdone_def
      socket_is_closed_def example_sys_def)

lemma example_fields:
  "protocolState example_sys = EMPTY" "apiCall example_sys = NONE" "rx example_sys = []"
  "tx example_sys = []" "trace example_sys = []"
  by (simp_all add: example_sys_def)

lemma dispatch_GET: "apiCall s = GET \<Longrightarrow> dispatch s = getCall s"
  by (simp add: dispatch_def code_defs)

lemma dispatch_NONE: "apiCall s = NONE \<Longrightarrow> dispatch s = s"
  by (simp add: dispatch_def)

lemma bare_request_ends_in_header:
  "pump (example_sys\<lparr>rx := [''GET /vpd HTTP/1.1'', '''']\<rparr>) =
     Some (example_sys\<lparr>apiCall := GET, protocolState := HEADER\<rparr>)"
proof -
  let ?s0 = "example_sys\<lparr>rx := [''GET /vpd HTTP/1.1'', '''']\<rparr>"
  let ?s1 = "?s0\<lparr>apiCall := NONE, protocolState := REQUEST\<rparr>"
  let ?s2 = "?s1\<lparr>apiCall := GET, rx := drop 1 [''''], protocolState := HEADER\<rparr>"
  have p0: "parseRecvBuffer ?s0 = Some ?s1"
    by (rule parse_EMPTY) (simp_all add: example_fields)
  have p1: "parseRecvBuffer ?s1 = Some ?s2"
    by (rule parse_REQUEST [where pre = "[]" and l = "''GET /vpd HTTP/1.1''"])
       (simp_all add: request_method_def)
  have "pump ?s0 = pump ?s1" using p0 by (intro pump_step) simp_all
  also have "\<dots> = pump ?s2" using p1 by (intro pump_step) simp_all
  also have "\<dots> = Some ?s2" by (rule pump_done) simp
  also have "?s2 = example_sys\<lparr>apiCall := GET, protocolState := HEADER\<rparr>"
    by (simp add: example_sys_def)
  finally show ?thesis .
qed

section \<open>Properties of the request parser\<close>

text \<open>
  C1 asks that every call of \<open>parseRecvBuffer\<close> return to the scheduler after
  consuming only lines that are already buffered.  In the \<open>REQUEST\<close> state the loop ends
  only on a line that begins with a method prefix (the source marks the missing test with
  \<^verbatim>\<open>TODO: check for next line\<close>): with the single buffered line
  \<^verbatim>\<open>POST /x HTTP/1.1\<close> the call discards it and then spins on the empty buffer, so it
  never returns.
\<close>

theorem parseRecvBuffer_request_spins:
  "parseRecvBuffer (example_sys\<lparr>protocolState := REQUEST, rx := [''POST /x HTTP/1.1'']\<rparr>) = None"
  by (rule parse_REQUEST_no_match) (simp_all add: request_method_def)

text \<open>
  C3, as stated, for every valid request and however its lines are split over the calls:
  this fails.  The request \<^verbatim>\<open>PUT /cfg HTTP/1.1\<close>, \<^verbatim>\<open>Host: a\<close>, blank, \<^verbatim>\<open>tcrit_hi=90\<close>,
  blank is valid and has a body.  When its first three lines are buffered before the body
  arrives, the \<open>HEADER\<close> case finds nothing buffered after the blank line and returns to
  \<open>EMPTY\<close>; the body lines are then taken for a new request, \<open>apiCall\<close> is reset and
  the \<open>REQUEST\<close> loop never finds a method.
\<close>

theorem split_request_counterexample:
  "feed [[''PUT /cfg HTTP/1.1'', ''Host: a'', ''''], [''tcrit_hi=90'', '''']] example_sys = None"
proof -
  let ?s = "example_sys\<lparr>apiCall := PUT, protocolState := EMPTY, rx := []\<rparr>"
  have est: "protocolState example_sys = EMPTY" and erx: "rx example_sys = []"
    by (simp_all add: example_sys_def)
  have "pump (example_sys\<lparr>rx := request_lines ''PUT /cfg HTTP/1.1'' [''Host: a''] None\<rparr>) = Some ?s"
    by (rule pump_request_lines) (simp_all add: request_method_def est)
  then have b1: "pump (example_sys\<lparr>rx := rx example_sys @ [''PUT /cfg HTTP/1.1'', ''Host: a'', '''']\<rparr>)
      = Some ?s"
    by (simp add: request_lines_def erx)
  have b2: "pump (?s\<lparr>rx := rx ?s @ [''tcrit_hi=90'', '''']\<rparr>) = None"
    by (rule pump_no_method) (simp_all add: request_method_def)
  show ?thesis
    by (simp only: feed.simps b1 b2 option.case)
qed

text \<open>
  C3, amended: for every valid request whose lines are all buffered before the first call
  and that has at least one header line or a body, invoking \<open>parseRecvBuffer\<close> for as
  long as a line is buffered starts and ends in \<open>EMPTY\<close>, leaves \<open>apiCall\<close> at the
  method of the request line and empties the buffer.
\<close>

theorem buffered_request_parsed:
  assumes "request_method l = Some m"
    and "\<forall>h\<in>set hs. h \<noteq> []"
    and "\<forall>bs. body = Some bs \<longrightarrow> (\<forall>b\<in>set bs. b \<noteq> [])"
    and "hs \<noteq> [] \<or> body \<noteq> None"
    and "protocolState s = EMPTY"
  shows "pump (s\<lparr>rx := request_lines l hs body\<rparr>) =
           Some (s\<lparr>apiCall := m, protocolState := EMPTY, rx := []\<rparr>)"
  using assms by (rule pump_request_lines)

theorem buffered_request_parsed_witness:
  "pump (example_sys\<lparr>rx := [''DELETE /log HTTP/1.1'', ''Host: x'', ''Accept: */*'', '''',
                              ''all'', '''']\<rparr>)
   = Some (example_sys\<lparr>apiCall := DELETE, protocolState := EMPTY, rx := []\<rparr>)"
  using buffered_request_parsed
    [of "''DELETE /log HTTP/1.1''" DELETE "[''Host: x'', ''Accept: */*'']" "Some [''all'']"
      example_sys]
  by (simp add: request_method_def request_lines_def example_sys_def)

text \<open>
  C4, as stated (an unrecognised request line ends with \<open>apiCall = NONE\<close> and no
  response): this fails.  The \<open>REQUEST\<close> loop discards a line that matches no prefix and
  goes on to the next one, so a later line of the same request can set the method.  For
  the request \<^verbatim>\<open>POST /x HTTP/1.1\<close>, \<^verbatim>\<open>Host: a\<close>, blank, \<^verbatim>\<open>GET the body\<close>, blank, the
  pump returns with \<open>apiCall = GET\<close> and the dispatch writes a response.
\<close>

theorem unrecognised_method_counterexample:
  "request_method ''POST /x HTTP/1.1'' = None \<and>
   pump (example_sys\<lparr>rx := [''POST /x HTTP/1.1'', ''Host: a'', '''', ''GET the body'', '''']\<rparr>)
     = Some (example_sys\<lparr>apiCall := GET, protocolState := HEADER\<rparr>) \<and>
   tx (dispatch (example_sys\<lparr>apiCall := GET, protocolState := HEADER\<rparr>))
     \<noteq> tx (example_sys\<lparr>apiCall := GET, protocolState := HEADER\<rparr>)"
proof -
  let ?s0 = "example_sys\<lparr>rx := [''POST /x HTTP/1.1'', ''Host: a'', '''', ''GET the body'', '''']\<rparr>"
  let ?s1 = "?s0\<lparr>apiCall := NONE, protocolState := REQUEST\<rparr>"
  let ?s2 = "?s1\<lparr>apiCall := GET, rx := drop 1 [''''], protocolState := HEADER\<rparr>"
  let ?y = "example_sys\<lparr>apiCall := GET, protocolState := HEADER\<rparr>"
  have p0: "parseRecvBuffer ?s0 = Some ?s1"
    by (rule parse_EMPTY) (simp_all add: example_fields)
  have p1: "parseRecvBuffer ?s1 = Some ?s2"
    by (rule parse_REQUEST [where pre = "[''POST /x HTTP/1.1'', ''Host: a'', '''']"
          and l = "''GET the body''"])
       (simp_all add: request_method_def)
  have "pump ?s0 = pump ?s1" using p0 by (intro pump_step) simp_all
  also have "\<dots> = pump ?s2" using p1 by (intro pump_step) simp_all
  also have "\<dots> = Some ?s2" by (rule pump_done) simp
  also have "?s2 = ?y" by (simp add: example_sys_def)
  finally have run: "pump ?s0 = Some ?y" .
  have "tx (dispatch ?y) \<noteq> tx ?y"
    by (simp add: dispatch_GET getCall_eq getCall_preamble_def)
  with run show ?thesis by (simp add: request_method_def)
qed

text \<open>
  C4, amended: in the \<open>REQUEST\<close> state the lines that begin with none of the prefixes
  are discarded without setting \<open>apiCall\<close>, and the first buffered line that begins
  with one sets \<open>apiCall\<close> to its method, whether or not it is the request line; a
  dispatch with \<open>apiCall = NONE\<close> takes the \<open>NONE\<close> branch and changes nothing, so
  it writes no response bytes.
\<close>

theorem unmatched_lines_skipped:
  "(protocolState s = REQUEST \<and> rx s = pre @ l # ls \<and>
      (\<forall>p\<in>set pre. request_method p = None) \<and> request_method l = Some m \<longrightarrow>
      parseRecvBuffer s = Some (s\<lparr>apiCall := m, rx := drop 1 ls, protocolState := HEADER\<rparr>)) \<and>
   (apiCall s = NONE \<longrightarrow> dispatch s = s)"
  by (simp add: parse_REQUEST dispatch_NONE)

theorem unmatched_lines_skipped_witness:
  "parseRecvBuffer
     (example_sys\<lparr>protocolState := REQUEST,
        rx := [''POST /x HTTP/1.1'', ''PUT /cfg HTTP/1.1'', ''Host: a'', '''']\<rparr>)
     = Some (example_sys\<lparr>protocolState := HEADER, apiCall := PUT, rx := ['''']\<rparr>) \<and>
   dispatch example_sys = example_sys"
  using unmatched_lines_skipped
      [of "example_sys\<lparr>protocolState := REQUEST,
             rx := [''POST /x HTTP/1.1'', ''PUT /cfg HTTP/1.1'', ''Host: a'', '''']\<rparr>"
          "[''POST /x HTTP/1.1'']" "''PUT /cfg HTTP/1.1''" "[''Host: a'', '''']" PUT]
    unmatched_lines_skipped [of example_sys "[]" "[]" "[]" NONE]
  by (simp add: request_method_def example_fields)

text \<open>
  C7, as stated (an invalid state is reset to \<open>EMPTY\<close>): this fails.  The default case
  only writes the diagnostic; entered with \<open>protocolState = 4\<close> the call returns with
  \<open>protocolState\<close> still 4.
\<close>

theorem invalid_state_counterexample:
  "map_option protocolState (parseRecvBuffer (example_sys\<lparr>protocolState := 4\<rparr>)) = Some 4
   \<and> (4 :: 8 word) \<noteq> EMPTY"
  by (simp add: parse_default code_defs uart_writestr_def)

text \<open>
  C7, amended: entered with \<open>protocolState\<close> outside \<open>EMPTY\<close>, \<open>REQUEST\<close>,
  \<open>HEADER\<close>, \<open>END\<close>, the call emits the diagnostic and returns; the invalid state stays
  in place, and \<open>apiCall\<close> and the input buffer are unchanged.
\<close>

theorem invalid_state_kept:
  "protocolState s \<notin> {EMPTY, REQUEST, HEADER, END} \<Longrightarrow>
   parseRecvBuffer s =
     Some (s\<lparr>trace := trace s @ [UartWriteStr (''ERR: Default case entered'' @ CRLF)]\<rparr>)"
  by (simp add: parse_default uart_writestr_def)

theorem invalid_state_kept_witness:
  "parseRecvBuffer (example_sys\<lparr>protocolState := 200\<rparr>) =
     Some (example_sys\<lparr>protocolState := 200,
             trace := [UartWriteStr (''ERR: Default case entered'' @ CRLF)]\<rparr>)"
  using invalid_state_kept [of "example_sys\<lparr>protocolState := 200\<rparr>"]
  by (simp add: code_defs example_sys_def)

text \<open>
  C8, as stated (a no-op in every protocol state when no line is buffered): this fails.
  Only the \<open>EMPTY\<close> case tests for a buffered line; entered in the \<open>REQUEST\<close> state
  with an empty buffer, the call does not return.
\<close>

theorem no_line_counterexample:
  "parseRecvBuffer (example_sys\<lparr>protocolState := REQUEST, rx := []\<rparr>) = None"
  by (rule parse_REQUEST_no_match) simp_all

text \<open>
  C8, amended: with no complete line buffered, a call in the \<open>EMPTY\<close> state changes
  nothing; in every protocol state the scheduler's pump, which tests for a buffered line
  before each call, does not invoke the parser and changes nothing.
\<close>

theorem no_line_noop:
  "(\<not> socket_received_line s \<and> protocolState s = EMPTY \<longrightarrow> parseRecvBuffer s = Some s) \<and>
   (\<not> socket_received_line s \<longrightarrow> pump s = Some s)"
  by (simp add: socket_received_line_def parse_EMPTY_idle pump_done)

theorem no_line_noop_witness:
  "parseRecvBuffer example_sys = Some example_sys \<and>
   pump (example_sys\<lparr>protocolState := HEADER\<rparr>) = Some (example_sys\<lparr>protocolState := HEADER\<rparr>)"
  using no_line_noop [of example_sys] no_line_noop [of "example_sys\<lparr>protocolState := HEADER\<rparr>"]
  by (simp add: socket_received_line_def example_sys_def)

text \<open>
  C10, as stated (a match is always followed by the discarding of exactly one more
  buffered line, so the line after the request line is never seen by header processing):
  this fails.  When the matched line is the last one buffered, the flush that follows the
  comparison finds an empty buffer and discards nothing; the call returns in the
  \<open>HEADER\<close> state, and the line that follows the request line, arriving later, is
  consumed by header processing: here the blank line ends the headers and the parser
  returns to \<open>EMPTY\<close>.
\<close>

theorem last_buffered_match_counterexample:
  "parseRecvBuffer (example_sys\<lparr>protocolState := REQUEST, rx := [''GET /vpd HTTP/1.1'']\<rparr>)
     = Some (example_sys\<lparr>protocolState := HEADER, apiCall := GET\<rparr>) \<and>
   rx (example_sys\<lparr>protocolState := HEADER, apiCall := GET\<rparr>) = [] \<and>
   parseRecvBuffer (example_sys\<lparr>protocolState := HEADER, apiCall := GET, rx := ['''']\<rparr>)
     = Some (example_sys\<lparr>protocolState := EMPTY, apiCall := GET\<rparr>)"
proof -
  let ?r = "example_sys\<lparr>protocolState := REQUEST, rx := [''GET /vpd HTTP/1.1'']\<rparr>"
  let ?h = "example_sys\<lparr>protocolState := HEADER, apiCall := GET, rx := ['''']\<rparr>"
  have "parseRecvBuffer ?r = Some (?r\<lparr>apiCall := GET, rx := drop 1 [], protocolState := HEADER\<rparr>)"
    by (rule parse_REQUEST [where pre = "[]" and l = "''GET /vpd HTTP/1.1''"])
       (simp_all add: request_method_def)
  moreover have "?r\<lparr>apiCall := GET, rx := drop 1 [], protocolState := HEADER\<rparr>
      = example_sys\<lparr>protocolState := HEADER, apiCall := GET\<rparr>"
    by (simp add: example_sys_def)
  moreover have "parseRecvBuffer ?h
      = Some (?h\<lparr>rx := [], protocolState := (if ([] :: string list) = [] then EMPTY else END)\<rparr>)"
    by (rule parse_HEADER [where pre = "[]"]) simp_all
  moreover have "?h\<lparr>rx := [], protocolState := (if ([] :: string list) = [] then EMPTY else END)\<rparr>
      = example_sys\<lparr>protocolState := EMPTY, apiCall := GET\<rparr>"
    by (simp add: example_sys_def)
  ultimately show ?thesis by (simp add: example_fields)
qed

text \<open>
  C10, amended: in the \<open>REQUEST\<close> state, when a buffered line begins with a method
  prefix, whether it is the first buffered line or follows lines that match no prefix, the
  comparison consumes that line and the flush that follows discards the next line if one
  is buffered and nothing otherwise; the call returns in the \<open>HEADER\<close> state with
  \<open>apiCall\<close> set to the method.  A following line that was buffered at the time of the
  match is not in the buffer that header processing receives.
\<close>

theorem request_match_discards_buffered_next_line:
  "protocolState s = REQUEST \<Longrightarrow> rx s = pre @ l # ls \<Longrightarrow>
   \<forall>p\<in>set pre. request_method p = None \<Longrightarrow> request_method l = Some m \<Longrightarrow>
   parseRecvBuffer s =
     Some (s\<lparr>apiCall := m, rx := (case ls of [] \<Rightarrow> [] | nxt # rest \<Rightarrow> rest),
             protocolState := HEADER\<rparr>)"
  using parse_REQUEST [of s pre l ls m] by (cases ls) simp_all

theorem request_match_discards_buffered_next_line_witness:
  "parseRecvBuffer
     (example_sys\<lparr>protocolState := REQUEST,
        rx := [''POST /x HTTP/1.1'', ''GET /vpd HTTP/1.1'', ''Host: x'', '''']\<rparr>)
     = Some (example_sys\<lparr>protocolState := HEADER, apiCall := GET, rx := ['''']\<rparr>) \<and>
   parseRecvBuffer (example_sys\<lparr>protocolState := REQUEST, rx := [''DELETE /log HTTP/1.1'']\<rparr>)
     = Some (example_sys\<lparr>protocolState := HEADER, apiCall := DELETE, rx := []\<rparr>)"
  using request_match_discards_buffered_next_line
      [of "example_sys\<lparr>protocolState := REQUEST,
             rx := [''POST /x HTTP/1.1'', ''GET /vpd HTTP/1.1'', ''Host: x'', '''']\<rparr>"
          "[''POST /x HTTP/1.1'']" "''GET /vpd HTTP/1.1''" "[''Host: x'', '''']" GET]
    request_match_discards_buffered_next_line
      [of "example_sys\<lparr>protocolState := REQUEST, rx := [''DELETE /log HTTP/1.1'']\<rparr>"
          "[]" "''DELETE /log HTTP/1.1''" "[]" DELETE]
  by (simp add: request_method_def)

section \<open>Properties of the dispatcher\<close>

text \<open>
  C5 asks that the response of \<open>getCall\<close> begin with a status line, a content-type
  header, a \<^verbatim>\<open>Connection: close\<close> header and a blank line, each terminated as a line.
  The first two writes carry no terminator (main.c 243--244), unlike the third (line
  245): whatever the formatted writers emit, the bytes of the response begin with the
  three texts run together on a single line.
\<close>

theorem getCall_header_lines_run_together:
  "prefix
     (''HTTP/1.1 200 OKContent-Type: application/vnd.api+jsonConnection: close''
        @ CRLF @ CRLF @ ''{'')
     (wire f (tx (getCall (s\<lparr>tx := []\<rparr>))))"
  by (simp add: getCall_eq getCall_preamble_def wire_def CRLF_def)

text \<open>
  C6: for every state of the log store, the writes of \<open>getCall\<close> are the fixed writes
  up to the opening bracket of the log array, then one entry for each index below
  \<open>log_get_num_entries\<close>, in index order, the entry of index \<open>i\<close> carrying the
  timestamp and the event of \<open>log_get_record i\<close>, with one comma between consecutive
  entries and none after the last, then the closing bracket, the closing brace and the
  line end.
\<close>

theorem getCall_log_array:
  "tx (getCall s) =
     tx s @ getCall_preamble s
       @ comma_join (map (\<lambda>i. log_entry (log_get_record s i)) [0 ..< log_get_num_entries s])
       @ [Chr CHR '']'', Chr CHR ''}'', Str CRLF]
   \<and> last (getCall_preamble s) = Str '':[''"
  by (simp only: log_array_indices getCall_eq) (simp add: getCall_preamble_def)

section \<open>Properties of the scheduler\<close>

text \<open>
  C2: in every iteration of the scheduler loop the watchdog reset comes first, whatever
  the state on entry and whatever branches are taken later.  When control reaches the
  test for buffered input, the calls of the iteration so far begin with the watchdog reset
  followed by the LED update, and the parser's variables and the socket buffers are still
  untouched; the sampling and the reopening of the socket come after them, the pump, the
  dispatch and the disconnect come after that test.  Every iteration that completes has
  added the watchdog reset to the trace before all its other calls.
\<close>

theorem watchdog_reset_first:
  "(\<exists>es. trace (sched_head s) = trace s @ WdtReset # LedUpdate # es) \<and>
   rx (sched_head s) = rx s \<and> tx (sched_head s) = tx s \<and>
   protocolState (sched_head s) = protocolState s \<and> apiCall (sched_head s) = apiCall s \<and>
   main_loop_body s = sched_tail (sched_head s) \<and>
   (\<forall>s'. main_loop_body s = Some s' \<longrightarrow> prefix (trace s @ [WdtReset, LedUpdate]) (trace s'))"
proof -
  have "prefix (trace s @ [WdtReset, LedUpdate]) (trace s')" if "main_loop_body s = Some s'" for s'
  proof -
    from that have "prefix (trace (sched_head s)) (trace s')"
      by (simp add: main_loop_body_def sched_tail_trace)
    moreover from sched_head_trace [of s]
    have "prefix (trace s @ [WdtReset, LedUpdate]) (trace (sched_head s))"
      by (auto simp add: prefix_def)
    ultimately show ?thesis by (meson prefix_order.trans)
  qed
  with sched_head_trace [of s] sched_head_parser_fields [of s] show ?thesis
    by (simp add: main_loop_body_def)
qed

theorem watchdog_reset_first_witness:
  "main_loop_body (example_sys\<lparr>rx := [''GET /vpd HTTP/1.1'', ''Host: x'', '''']\<rparr>) =
     Some (socket_disconnect (getCall (example_sys\<lparr>apiCall := GET, trace := [WdtReset, LedUpdate]\<rparr>)))
   \<and> prefix [WdtReset, LedUpdate]
        (trace (socket_disconnect
           (getCall (example_sys\<lparr>apiCall := GET, trace := [WdtReset, LedUpdate]\<rparr>))))"
proof -
  let ?x = "example_sys\<lparr>rx := [''GET /vpd HTTP/1.1'', ''Host: x'', '''']\<rparr>"
  let ?h = "example_sys\<lparr>trace := [WdtReset, LedUpdate]\<rparr>"
  let ?y = "example_sys\<lparr>apiCall := GET, trace := [WdtReset, LedUpdate]\<rparr>"
  have "pump (?h\<lparr>rx := request_lines ''GET /vpd HTTP/1.1'' [''Host: x''] None\<rparr>) =
          Some (?h\<lparr>apiCall := GET, protocolState := EMPTY, rx := []\<rparr>)"
    by (rule pump_request_lines) (simp_all add: request_method_def example_fields)
  moreover have "?h\<lparr>apiCall := GET, protocolState := EMPTY, rx := []\<rparr> = ?y"
    by (simp add: example_sys_def)
  ultimately have p: "pump (sched_head ?x) = Some ?y"
    by (simp add: example_sched_head request_lines_def)
  have "socket_received_line (sched_head ?x)"
    by (simp add: example_sched_head socket_received_line_def)
  with p have run: "main_loop_body ?x = Some (socket_disconnect (getCall ?y))"
    by (simp add: main_loop_body_def sched_tail_def dispatch_GET)
  with watchdog_reset_first [of ?x] show ?thesis
    by (simp add: example_fields)
qed

text \<open>
  C9 asks that every iteration that finds a line buffered disconnect the connection once,
  after the dispatch.  The disconnect follows the dispatch switch unconditionally, but the
  pump comes before both: with the line \<^verbatim>\<open>POST /x HTTP/1.1\<close> buffered the pump never
  returns, so the iteration reaches neither the dispatch nor the disconnect.
\<close>

theorem request_cycle_without_disconnect:
  "main_loop_body (example_sys\<lparr>rx := [''POST /x HTTP/1.1'']\<rparr>) = None"
proof -
  have "pump (example_sys\<lparr>trace := [WdtReset, LedUpdate], rx := [''POST /x HTTP/1.1'']\<rparr>) = None"
    by (rule pump_no_method) (simp_all add: request_method_def example_sys_def)
  then show ?thesis
    by (simp add: main_loop_body_def example_sched_head sched_tail_def socket_received_line_def)
qed

end
